theory Spec2Isabelle
  imports Complex_Main "HOL-Library.Multiset"
begin

section \<open>Turn-gap analytics: the data model\<close>

text \<open>
  An utterance as the diarization provider delivers it: the attributes read by
  \<^verbatim>\<open>process_transcript\<close> are \<^verbatim>\<open>speaker\<close>, \<^verbatim>\<open>start\<close>, \<^verbatim>\<open>end\<close> (integers, milliseconds)
  and \<^verbatim>\<open>text\<close>. The calls \<^verbatim>\<open>int(utterance.start)\<close> and \<^verbatim>\<open>int(utterance.end)\<close> are the
  identity on integers.
\<close>

record utterance =
  u_speaker :: string
  u_start :: int
  u_end :: int
  u_text :: string

text \<open>
  One row of the per-file table, the dictionary \<^verbatim>\<open>turn_data\<close>. The keys
  \<^verbatim>\<open>next_start_ms\<close> and \<^verbatim>\<open>gap_to_next_ms\<close> hold an integer or the empty string: \<open>None\<close> is
  the empty string. The key \<^verbatim>\<open>next_speaker\<close> holds a string in both cases, the empty one
  when there is no next utterance.
\<close>

record turn =
  turn_file :: string
  turn_index :: nat
  speaker :: string
  start_ms :: int
  end_ms :: int
  duration_ms :: int
  turn_text :: string
  next_speaker :: string
  next_start_ms :: "int option"
  gap_to_next_ms :: "int option"
  speaker_change :: bool

section \<open>Normalizer and Turn Transformer: \<^verbatim>\<open>process_transcript\<close>\<close>

text \<open>
  \<^verbatim>\<open>sorted(utterances, key=lambda u: u.start)\<close>. Python's \<^verbatim>\<open>sorted\<close> is documented to be
  stable; \<open>sort_key\<close> is the stable sort of the library, and a stable sort by a key has
  one result only.
\<close>

definition sorted_utterances :: "utterance list \<Rightarrow> utterance list" where
  "sorted_utterances utterances = sort_key u_start utterances"

text \<open>The body of the loop over \<^verbatim>\<open>enumerate(sorted_utterances)\<close>, at index \<open>idx\<close>.\<close>

definition turn_data :: "utterance list \<Rightarrow> string \<Rightarrow> nat \<Rightarrow> turn" where
  "turn_data sus audio_filename idx =
     (let utterance = sus ! idx;
          s_ms = u_start utterance;
          e_ms = u_end utterance
      in if int idx < int (length sus) - 1
         then
           (let next_utterance = sus ! (idx + 1);
                n_speaker = u_speaker next_utterance;
                n_start_ms = u_start next_utterance
            in \<lparr> turn_file = audio_filename, turn_index = idx + 1,
                 speaker = u_speaker utterance, start_ms = s_ms, end_ms = e_ms,
                 duration_ms = e_ms - s_ms, turn_text = u_text utterance,
                 next_speaker = n_speaker, next_start_ms = Some n_start_ms,
                 gap_to_next_ms = Some (n_start_ms - e_ms),
                 speaker_change = (u_speaker utterance \<noteq> n_speaker) \<rparr>)
         else
           \<lparr> turn_file = audio_filename, turn_index = idx + 1,
             speaker = u_speaker utterance, start_ms = s_ms, end_ms = e_ms,
             duration_ms = e_ms - s_ms, turn_text = u_text utterance,
             next_speaker = [], next_start_ms = None,
             gap_to_next_ms = None, speaker_change = False \<rparr>)"

definition process_transcript :: "utterance list \<Rightarrow> string \<Rightarrow> turn list" where
  "process_transcript utterances audio_filename =
     (if utterances = [] then []
      else (let sus = sorted_utterances utterances
            in map (turn_data sus audio_filename) [0..<length sus]))"

section \<open>Summary Aggregator: \<^verbatim>\<open>calculate_summary_stats\<close>\<close>

text \<open>
  The statistics are Python numbers: an \<^verbatim>\<open>int\<close> or a \<^verbatim>\<open>float\<close>. Binary floating point is
  not modelled: the three float operations the function uses are taken as parameters
  over an arbitrary carrier \<open>'f\<close>, so every theorem below holds for each float
  arithmetic. \<open>truediv a b\<close> is \<^verbatim>\<open>a / b\<close> on two integers, \<open>times_int x k\<close> is
  \<^verbatim>\<open>x * k\<close> for a float \<open>x\<close> and an integer \<open>k\<close>, and \<open>round2 x\<close> is \<^verbatim>\<open>round(x, 2)\<close> on a
  float.
\<close>

datatype 'f pynum = PyInt int | PyFloat 'f

record 'f float_ops =
  truediv :: "int \<Rightarrow> int \<Rightarrow> 'f"
  times_int :: "'f \<Rightarrow> int \<Rightarrow> 'f"
  round2 :: "'f \<Rightarrow> 'f"

text \<open>\<^verbatim>\<open>round(x, 2)\<close>: on an \<^verbatim>\<open>int\<close> Python returns the integer itself.\<close>

fun py_round2 :: "'f float_ops \<Rightarrow> 'f pynum \<Rightarrow> 'f pynum" where
  "py_round2 fa (PyInt i) = PyInt i"
| "py_round2 fa (PyFloat x) = PyFloat (round2 fa x)"

text \<open>
  \<^verbatim>\<open>statistics.median\<close>: the middle element of the sorted data for an odd length, the
  true quotient of the sum of the two middle elements by 2 for an even one. On empty
  data Python raises \<^verbatim>\<open>StatisticsError\<close>; the only call is behind the guard of line 205,
  on a list with an element.
\<close>

definition median :: "'f float_ops \<Rightarrow> int list \<Rightarrow> 'f pynum" where
  "median fa xs =
     (let data = sort xs; n = length data
      in if n mod 2 = 1 then PyInt (data ! (n div 2))
         else (let i = n div 2
               in PyFloat (truediv fa (data ! (i - 1) + data ! i) 2)))"

text \<open>
  \<^verbatim>\<open>int(len(sorted_gaps) * 0.95)\<close>, in exact arithmetic. The binary64 product agrees
  with it for every length a list can have: the double nearest to 0.95 is below it by
  less than \<open>2\<^sup>-\<^sup>5\<^sup>4\<close>, the exact product \<open>19 n / 20\<close> has a fractional part of 0 or at
  least \<open>1/20\<close>, and in the first case the rounded product is the integer itself.
\<close>

definition p95_index :: "nat \<Rightarrow> nat" where
  "p95_index n = nat \<lfloor>real n * 0.95\<rfloor>"

text \<open>The five keys of the dictionary returned; \<open>None\<close> is the empty string.\<close>

record 'f stats =
  avg_gap_ms :: "'f pynum option"
  median_gap_ms :: "'f pynum option"
  p95_gap_ms :: "'f pynum option"
  overlap_rate :: "'f pynum option"
  avg_positive_gap_ms :: "'f pynum option"

text \<open>Lines 190 to 203: the gaps of the speaker changes, or all gaps when there is none.\<close>

definition speaker_change_gaps :: "turn list \<Rightarrow> int list" where
  "speaker_change_gaps turns =
     (let gaps = map (\<lambda>t. the (gap_to_next_ms t))
                   (filter (\<lambda>t. speaker_change t \<and> gap_to_next_ms t \<noteq> None) turns)
      in if gaps = []
         then map (\<lambda>t. the (gap_to_next_ms t))
                (filter (\<lambda>t. gap_to_next_ms t \<noteq> None) turns)
         else gaps)"

text \<open>Lines 214 to 236, on the selected gaps (which have an element there).\<close>

definition gap_statistics :: "'f float_ops \<Rightarrow> int list \<Rightarrow> 'f stats" where
  "gap_statistics fa gaps =
     (let avg = truediv fa (sum_list gaps) (int (length gaps));
          sorted_gaps = sort gaps;
          med = median fa sorted_gaps;
          p95 = sorted_gaps ! (min (p95_index (length sorted_gaps)) (length sorted_gaps - 1));
          negative_gaps = filter (\<lambda>g. g < 0) gaps;
          overlap = times_int fa (truediv fa (int (length negative_gaps)) (int (length gaps))) 100;
          positive_gaps = filter (\<lambda>g. 0 < g) gaps
      in \<lparr> avg_gap_ms = Some (PyFloat (round2 fa avg)),
           median_gap_ms = Some (py_round2 fa med),
           p95_gap_ms = Some (py_round2 fa (PyInt p95)),
           overlap_rate = Some (PyFloat (round2 fa overlap)),
           avg_positive_gap_ms =
             (if positive_gaps \<noteq> []
              then Some (PyFloat (round2 fa
                     (truediv fa (sum_list positive_gaps) (int (length positive_gaps)))))
              else None) \<rparr>)"

text \<open>
  The whole function. \<open>None\<close> is the empty dictionary \<^verbatim>\<open>{}\<close> returned for no turns, which
  has none of the five keys.
\<close>

definition calculate_summary_stats :: "'f float_ops \<Rightarrow> turn list \<Rightarrow> 'f stats option" where
  "calculate_summary_stats fa turns =
     (if turns = [] then None
      else (let gaps = speaker_change_gaps turns
            in if gaps = []
               then Some \<lparr> avg_gap_ms = None, median_gap_ms = None, p95_gap_ms = None,
                           overlap_rate = None, avg_positive_gap_ms = None \<rparr>
               else Some (gap_statistics fa gaps)))"

section \<open>The batch drivers\<close>

text \<open>
  The summary dictionary both drivers build from the turns of one file (lines 290 to 298
  of the command-line script, lines 80 to 88 of the web service, the same code):
  the file name, the two counts, and the keys of the statistics dictionary.
\<close>

record 'f summary =
  summary_file :: string
  turns :: nat
  speaker_changes :: nat
  stats :: "'f stats option"

definition summarize :: "'f float_ops \<Rightarrow> string \<Rightarrow> turn list \<Rightarrow> 'f summary" where
  "summarize fa name ts =
     \<lparr> summary_file = name, turns = length ts,
       speaker_changes = length (filter speaker_change ts),
       stats = calculate_summary_stats fa ts \<rparr>"

text \<open>
  The transcription provider is outside the repository: what it answers for a file is
  part of the input. It returns a transcript with a status, or the call raises.
\<close>

datatype transcript_status = St_queued | St_processing | St_completed | St_error

record transcript =
  status :: transcript_status
  utterances :: "utterance list"

datatype api_outcome = Returned transcript | Raised

text \<open>\<^verbatim>\<open>transcribe_audio\<close>, lines 82 to 100: \<open>None\<close> on an error status, on any other
  status than completed, and on an exception.\<close>

definition transcribe_audio :: "api_outcome \<Rightarrow> transcript option" where
  "transcribe_audio r =
     (case r of
        Raised \<Rightarrow> None
      | Returned t \<Rightarrow>
          if status t = St_error then None
          else if status t \<noteq> St_completed then None
          else Some t)"

text \<open>
  A file of a batch with what the outside world does with it: its name, the lower-case
  suffix of the name, whether the upload can be written to the temporary directory, and
  the provider's answer.
\<close>

record audio_file =
  file_name :: string
  file_suffix :: string
  file_saves :: bool
  api_response :: api_outcome

definition SUPPORTED_EXTENSIONS :: "string set" where
  "SUPPORTED_EXTENSIONS = {''.mp3'', ''.wav'', ''.m4a'', ''.mp4'', ''.flac'', ''.ogg''}"

text \<open>The loop of \<^verbatim>\<open>main\<close> in the command-line script, lines 273 to 299.\<close>

fun main_loop :: "'f float_ops \<Rightarrow> audio_file list \<Rightarrow> 'f summary list \<Rightarrow> 'f summary list" where
  "main_loop fa [] all_summaries = all_summaries"
| "main_loop fa (f # fs) all_summaries =
     (case transcribe_audio (api_response f) of
        None \<Rightarrow> main_loop fa fs all_summaries
      | Some t \<Rightarrow>
          (let ts = process_transcript (utterances t) (file_name f)
           in if ts = [] then main_loop fa fs all_summaries
              else main_loop fa fs (all_summaries @ [summarize fa (file_name f) ts])))"

definition main :: "'f float_ops \<Rightarrow> audio_file list \<Rightarrow> 'f summary list" where
  "main fa audio_files = main_loop fa audio_files []"

text \<open>The three places where the web service raises \<^verbatim>\<open>HTTPException\<close>, with the file name.\<close>

datatype http_exception =
  Unsupported_file_type string
| Failed_to_save string
| Transcription_failed string

fun status_code :: "http_exception \<Rightarrow> nat" where
  "status_code (Unsupported_file_type n) = 400"
| "status_code (Failed_to_save n) = 500"
| "status_code (Transcription_failed n) = 500"

text \<open>The loop of \<^verbatim>\<open>process_uploaded_files\<close> in the web service, lines 43 to 91.\<close>

fun uploaded_loop ::
  "'f float_ops \<Rightarrow> audio_file list \<Rightarrow> 'f summary list \<Rightarrow> http_exception + 'f summary list" where
  "uploaded_loop fa [] all_summaries = Inr all_summaries"
| "uploaded_loop fa (f # fs) all_summaries =
     (if file_suffix f \<notin> SUPPORTED_EXTENSIONS then Inl (Unsupported_file_type (file_name f))
      else if \<not> file_saves f then Inl (Failed_to_save (file_name f))
      else (case transcribe_audio (api_response f) of
              None \<Rightarrow> Inl (Transcription_failed (file_name f))
            | Some t \<Rightarrow>
                (let ts = process_transcript (utterances t) (file_name f)
                 in if ts = [] then uploaded_loop fa fs all_summaries
                    else uploaded_loop fa fs
                           (all_summaries @ [summarize fa (file_name f) ts]))))"

definition process_uploaded_files ::
  "'f float_ops \<Rightarrow> audio_file list \<Rightarrow> http_exception + 'f summary list" where
  "process_uploaded_files fa files = uploaded_loop fa files []"

text \<open>
  What one iteration of the loop of \<^verbatim>\<open>main\<close> appends for a file: nothing when the
  transcription fails or when there is no turn, the summary otherwise. Used to state
  what the loops compute.
\<close>

definition file_summary :: "'f float_ops \<Rightarrow> audio_file \<Rightarrow> 'f summary option" where
  "file_summary fa f =
     (case transcribe_audio (api_response f) of
        None \<Rightarrow> None
      | Some t \<Rightarrow>
          (let ts = process_transcript (utterances t) (file_name f)
           in if ts = [] then None else Some (summarize fa (file_name f) ts)))"

section \<open>The specification's wording, for comparison\<close>

text \<open>
  The specification's invariant of a Turn Record sequence: a turn that is a speaker
  change has a gap.
\<close>

definition turn_records :: "turn list \<Rightarrow> bool" where
  "turn_records ts = list_all (\<lambda>t. speaker_change t \<longrightarrow> gap_to_next_ms t \<noteq> None) ts"

text \<open>
  The specification's selected gap set, in its words: the gap of every turn whose
  speaker change is true; if there is none, the gap of every turn that has one.
\<close>

definition spec_speaker_change_gap_set :: "turn list \<Rightarrow> int option list" where
  "spec_speaker_change_gap_set ts = map gap_to_next_ms (filter speaker_change ts)"

definition spec_defined_gap_set :: "turn list \<Rightarrow> int option list" where
  "spec_defined_gap_set ts = filter (\<lambda>g. g \<noteq> None) (map gap_to_next_ms ts)"

definition spec_selected_gap_set :: "turn list \<Rightarrow> int option list" where
  "spec_selected_gap_set ts =
     (if spec_speaker_change_gap_set ts = [] then spec_defined_gap_set ts
      else spec_speaker_change_gap_set ts)"

section \<open>Concrete inputs\<close>

text \<open>
  An exact arithmetic to evaluate the statistics on concrete inputs: rational
  division and multiplication, and rounding to two decimals with ties to even.
\<close>

definition round_half_even :: "rat \<Rightarrow> int" where
  "round_half_even x =
     (let f = \<lfloor>x\<rfloor>; d = x - of_int f
      in if d < 1/2 then f else if 1/2 < d then f + 1
         else if even f then f else f + 1)"

definition exact_ops :: "rat float_ops" where
  "exact_ops =
     \<lparr> truediv = (\<lambda>a b. of_int a / of_int b),
       times_int = (\<lambda>x k. x * of_int k),
       round2 = (\<lambda>x. of_int (round_half_even (x * 100)) / 100) \<rparr>"

definition utt :: "string \<Rightarrow> int \<Rightarrow> int \<Rightarrow> utterance" where
  "utt sp s e = \<lparr> u_speaker = sp, u_start = s, u_end = e, u_text = [] \<rparr>"

text \<open>The conversation of the specification's example: A and B overlap, then A again.\<close>

definition conversation :: "utterance list" where
  "conversation = [utt ''A'' 0 1000, utt ''B'' 900 1800, utt ''A'' 1800 2500]"

text \<open>One speaker, three utterances, the gaps 50 and 100: no speaker change.\<close>

definition monologue :: "utterance list" where
  "monologue = [utt ''A'' 0 100, utt ''A'' 150 300, utt ''A'' 400 500]"

text \<open>Six alternating utterances, the five gaps 300, -50, 120, 40 and 700.\<close>

definition dialogue :: "utterance list" where
  "dialogue = [utt ''A'' 0 1000, utt ''B'' 1300 2000, utt ''A'' 1950 3000,
               utt ''B'' 3120 4000, utt ''A'' 4040 5000, utt ''B'' 5700 6000]"

definition solo :: "utterance list" where
  "solo = [utt ''A'' 0 500]"

definition good_file :: audio_file where
  "good_file = \<lparr> file_name = ''good.mp3'', file_suffix = ''.mp3'', file_saves = True,
                 api_response = Returned \<lparr> status = St_completed, utterances = conversation \<rparr> \<rparr>"

definition silent_file :: audio_file where
  "silent_file = \<lparr> file_name = ''silent.mp3'', file_suffix = ''.mp3'', file_saves = True,
                   api_response = Returned \<lparr> status = St_completed, utterances = [] \<rparr> \<rparr>"

definition failed_file :: audio_file where
  "failed_file = \<lparr> file_name = ''bad.mp3'', file_suffix = ''.mp3'', file_saves = True,
                   api_response = Returned \<lparr> status = St_error, utterances = [] \<rparr> \<rparr>"

section \<open>Properties of the Normalizer and the Transformer\<close>

lemma length_sorted_utterances: "length (sorted_utterances us) = length us"
  by (simp add: sorted_utterances_def)

lemma length_process_transcript: "length (process_transcript us fn) = length us"
  by (simp add: process_transcript_def length_sorted_utterances)

lemma nth_process_transcript:
  assumes "i < length us"
  shows "process_transcript us fn ! i = turn_data (sorted_utterances us) fn i"
proof -
  from assms have "us \<noteq> []" by auto
  with assms show ?thesis
    by (simp add: process_transcript_def length_sorted_utterances)
qed

lemma process_transcript_empty_iff: "process_transcript us fn = [] \<longleftrightarrow> us = []"
  using length_process_transcript [of us fn] by auto

lemma sorted_utterances_id: "sorted (map u_start us) \<Longrightarrow> sorted_utterances us = us"
  by (simp add: sorted_utterances_def sort_key_id_if_sorted)

lemma turn_data_inner:
  assumes "Suc i < length sus"
  shows "gap_to_next_ms (turn_data sus fn i) = Some (u_start (sus ! Suc i) - u_end (sus ! i))"
    and "speaker_change (turn_data sus fn i) = (u_speaker (sus ! i) \<noteq> u_speaker (sus ! Suc i))"
  using assms by (simp_all add: turn_data_def Let_def)

lemma turn_data_change_has_gap:
  "speaker_change (turn_data sus fn i) \<Longrightarrow> gap_to_next_ms (turn_data sus fn i) \<noteq> None"
  by (auto simp: turn_data_def Let_def split: if_splits)

lemma turn_data_last_fields:
  assumes "Suc i = length sus"
  shows "speaker_change (turn_data sus fn i) = False"
    and "next_speaker (turn_data sus fn i) = []"
    and "next_start_ms (turn_data sus fn i) = None"
    and "gap_to_next_ms (turn_data sus fn i) = None"
proof -
  from assms have "\<not> int i < int (length sus) - 1" by simp
  then show "speaker_change (turn_data sus fn i) = False"
    and "next_speaker (turn_data sus fn i) = []"
    and "next_start_ms (turn_data sus fn i) = None"
    and "gap_to_next_ms (turn_data sus fn i) = None"
    by (simp_all add: turn_data_def Let_def)
qed

lemma last_process_transcript:
  assumes "us \<noteq> []"
  shows "last (process_transcript us fn) =
           turn_data (sorted_utterances us) fn (length us - 1)"
proof -
  have ne: "process_transcript us fn \<noteq> []"
    using assms length_process_transcript [of us fn] by auto
  have "last (process_transcript us fn) = process_transcript us fn ! (length us - 1)"
    using ne by (simp add: last_conv_nth length_process_transcript)
  also have "\<dots> = turn_data (sorted_utterances us) fn (length us - 1)"
    using assms by (simp add: nth_process_transcript)
  finally show ?thesis .
qed

lemma last_turn_no_change:
  assumes "us \<noteq> []"
  shows "\<not> speaker_change (last (process_transcript us fn))"
proof -
  from assms have "Suc (length us - 1) = length (sorted_utterances us)"
    by (simp add: length_sorted_utterances)
  then have "speaker_change (turn_data (sorted_utterances us) fn (length us - 1)) = False"
    by (rule turn_data_last_fields(1))
  then have "\<not> speaker_change (turn_data (sorted_utterances us) fn (length us - 1))"
    by simp
  then show ?thesis
    by (simp add: last_process_transcript [OF assms])
qed

lemma process_transcript_change_has_gap:
  assumes "t \<in> set (process_transcript us fn)" and "speaker_change t"
  shows "gap_to_next_ms t \<noteq> None"
proof -
  from assms(1) obtain i where "i < length (process_transcript us fn)"
    and "t = process_transcript us fn ! i"
    by (auto simp: in_set_conv_nth)
  then have "t = turn_data (sorted_utterances us) fn i"
    by (simp add: length_process_transcript nth_process_transcript)
  with assms(2) show ?thesis by (simp add: turn_data_change_has_gap)
qed

lemma turn_records_process_transcript: "turn_records (process_transcript us fn)"
  unfolding turn_records_def list_all_iff
  using process_transcript_change_has_gap by blast

lemma count_filter_last_false:
  assumes "ts \<noteq> []" and "\<not> P (last ts)"
  shows "Suc (length (filter P ts)) \<le> length ts"
proof -
  from assms(1) have "ts = butlast ts @ [last ts]" by simp
  then have "filter P ts = filter P (butlast ts @ [last ts])" by simp
  also have "\<dots> = filter P (butlast ts)" using assms(2) by simp
  finally have "filter P ts = filter P (butlast ts)" .
  then have "length (filter P ts) \<le> length (butlast ts)"
    by (simp only: length_filter_le)
  moreover from assms(1) have "Suc (length (butlast ts)) = length ts" by simp
  ultimately show ?thesis by linarith
qed

section \<open>Properties of the Aggregator\<close>

lemma filter_defined_gaps:
  "map Some (map (\<lambda>t. the (gap_to_next_ms t)) (filter (\<lambda>t. gap_to_next_ms t \<noteq> None) ts))
     = spec_defined_gap_set ts"
  by (induction ts) (auto simp: spec_defined_gap_set_def)

lemma filter_change_gaps:
  assumes "turn_records ts"
  shows "map Some (map (\<lambda>t. the (gap_to_next_ms t))
            (filter (\<lambda>t. speaker_change t \<and> gap_to_next_ms t \<noteq> None) ts))
         = spec_speaker_change_gap_set ts"
  using assms
  by (induction ts) (auto simp: spec_speaker_change_gap_set_def turn_records_def)

lemma speaker_change_gaps_spec:
  assumes "turn_records ts"
  shows "map Some (speaker_change_gaps ts) = spec_selected_gap_set ts"
proof -
  let ?g = "map (\<lambda>t. the (gap_to_next_ms t))
              (filter (\<lambda>t. speaker_change t \<and> gap_to_next_ms t \<noteq> None) ts)"
  have eq: "map Some ?g = spec_speaker_change_gap_set ts"
    using assms by (rule filter_change_gaps)
  have "(map Some ?g = []) = (?g = [])" by (rule map_is_Nil_conv)
  with eq have emp: "?g = [] \<longleftrightarrow> spec_speaker_change_gap_set ts = []"
    by simp
  show ?thesis
  proof (cases "?g = []")
    case True
    with emp have s: "spec_speaker_change_gap_set ts = []" by blast
    have "speaker_change_gaps ts =
            map (\<lambda>t. the (gap_to_next_ms t)) (filter (\<lambda>t. gap_to_next_ms t \<noteq> None) ts)"
      by (simp only: speaker_change_gaps_def Let_def True if_True simp_thms)
    then have "map Some (speaker_change_gaps ts) = spec_defined_gap_set ts"
      by (simp only: filter_defined_gaps)
    then show ?thesis by (simp add: spec_selected_gap_set_def s)
  next
    case False
    with emp have s: "spec_speaker_change_gap_set ts \<noteq> []" by blast
    have "speaker_change_gaps ts = ?g"
      by (simp only: speaker_change_gaps_def Let_def False if_False simp_thms)
    then have "map Some (speaker_change_gaps ts) = spec_speaker_change_gap_set ts"
      by (simp only: eq)
    then show ?thesis by (simp add: spec_selected_gap_set_def s)
  qed
qed

lemma empty_gaps_no_gap:
  assumes "speaker_change_gaps ts = []" and "t \<in> set ts"
  shows "gap_to_next_ms t = None"
proof -
  let ?g = "map (\<lambda>t. the (gap_to_next_ms t))
              (filter (\<lambda>t. speaker_change t \<and> gap_to_next_ms t \<noteq> None) ts)"
  have "?g = []"
  proof (rule ccontr)
    assume "?g \<noteq> []"
    then have "speaker_change_gaps ts = ?g"
      by (simp only: speaker_change_gaps_def Let_def if_False simp_thms)
    with assms(1) \<open>?g \<noteq> []\<close> show False by simp
  qed
  then have "speaker_change_gaps ts =
               map (\<lambda>t. the (gap_to_next_ms t)) (filter (\<lambda>t. gap_to_next_ms t \<noteq> None) ts)"
    by (simp only: speaker_change_gaps_def Let_def if_True simp_thms)
  with assms(1) have "filter (\<lambda>t. gap_to_next_ms t \<noteq> None) ts = []" by simp
  with assms(2) show ?thesis by (simp add: filter_empty_conv)
qed

lemma empty_gaps_single_turn:
  assumes "us \<noteq> []" and "speaker_change_gaps (process_transcript us fn) = []"
  shows "length us = 1"
proof (rule ccontr)
  assume "length us \<noteq> 1"
  with assms(1) have two: "Suc 0 < length us" by (cases us) auto
  then have "0 < length us" by arith
  then have nth: "process_transcript us fn ! 0 = turn_data (sorted_utterances us) fn 0"
    by (rule nth_process_transcript)
  from two have "Suc 0 < length (sorted_utterances us)"
    by (simp add: length_sorted_utterances)
  then have "gap_to_next_ms (turn_data (sorted_utterances us) fn 0) \<noteq> None"
    by (simp add: turn_data_inner)
  moreover have "process_transcript us fn ! 0 \<in> set (process_transcript us fn)"
    using \<open>0 < length us\<close> by (simp add: length_process_transcript)
  ultimately show False
    using empty_gaps_no_gap [OF assms(2)] nth by simp
qed

lemma calculate_summary_stats_nonempty:
  assumes "ts \<noteq> []" and "speaker_change_gaps ts \<noteq> []"
  shows "calculate_summary_stats fa ts = Some (gap_statistics fa (speaker_change_gaps ts))"
  using assms by (simp add: calculate_summary_stats_def Let_def)

lemma p95_index_div: "p95_index n = n * 95 div 100"
proof -
  have "real n * 0.95 = real (n * 95) / real 100" by simp
  then have "\<lfloor>real n * 0.95\<rfloor> = \<lfloor>real (n * 95) / real 100\<rfloor>"
    by (rule arg_cong)
  also have "\<dots> = int (n * 95 div 100)" by (rule floor_divide_of_nat_eq)
  finally show ?thesis by (simp add: p95_index_def)
qed

lemma p95_index_small:
  assumes "0 < n" and "n \<le> 20"
  shows "min (p95_index n) (n - 1) = n - 1"
proof -
  from assms have "n - 1 \<le> n * 95 div 100" by linarith
  then show ?thesis by (simp add: p95_index_div)
qed

lemma sorted_last_Max:
  fixes xs :: "int list"
  assumes "xs \<noteq> []"
  shows "sort xs ! (length xs - 1) = Max (set xs)"
proof -
  have ne: "sort xs \<noteq> []" using assms by (metis length_sort length_0_conv)
  have l: "sort xs ! (length xs - 1) = last (sort xs)"
    using ne by (simp add: last_conv_nth)
  have "last (sort xs) \<in> set (sort xs)" using ne by (rule last_in_set)
  then have mem: "last (sort xs) \<in> set xs" by simp
  have "\<And>x. x \<in> set xs \<Longrightarrow> x \<le> last (sort xs)"
  proof -
    fix x assume "x \<in> set xs"
    then have "x \<in> set (sort xs)" by simp
    then obtain i where i: "i < length (sort xs)" and x: "x = sort xs ! i"
      unfolding in_set_conv_nth by blast
    from i have "i \<le> length (sort xs) - 1" by simp
    moreover from assms have "length (sort xs) - 1 < length (sort xs)" by simp
    ultimately have "sort xs ! i \<le> sort xs ! (length (sort xs) - 1)"
      using sorted_sort [of xs] by (simp only: sorted_nth_mono)
    with x l show "x \<le> last (sort xs)" by simp
  qed
  with mem have "Max (set xs) = last (sort xs)"
    by (intro Max_eqI) auto
  with l show ?thesis by simp
qed

lemma p95_of_gap_statistics:
  "p95_gap_ms (gap_statistics fa gaps) =
     Some (PyInt (sort gaps ! min (p95_index (length gaps)) (length gaps - 1)))"
  by (simp add: gap_statistics_def Let_def)

lemma gap_statistics_explicit:
  "gap_statistics fa G =
     \<lparr> avg_gap_ms = Some (PyFloat (round2 fa (truediv fa (sum_list G) (int (length G))))),
       median_gap_ms =
         Some (if odd (length G) then PyInt (sort G ! (length G div 2))
               else PyFloat (round2 fa
                      (truediv fa (sort G ! (length G div 2 - 1) + sort G ! (length G div 2)) 2))),
       p95_gap_ms = Some (PyInt (sort G ! min (nat \<lfloor>real (length G) * 0.95\<rfloor>) (length G - 1))),
       overlap_rate =
         Some (PyFloat (round2 fa
                 (times_int fa (truediv fa (int (length (filter (\<lambda>g. g < 0) G))) (int (length G))) 100))),
       avg_positive_gap_ms =
         (if filter (\<lambda>g. 0 < g) G = [] then None
          else Some (PyFloat (round2 fa
                 (truediv fa (sum_list (filter (\<lambda>g. 0 < g) G))
                             (int (length (filter (\<lambda>g. 0 < g) G))))))) \<rparr>"
proof -
  have ss: "sort (sort G) = sort G" by (simp add: sort_key_id_if_sorted)
  show ?thesis
  proof (cases "odd (length G)")
    case True
    then have "length G mod 2 = 1" by presburger
    with True show ?thesis
      by (simp add: gap_statistics_def median_def Let_def p95_index_def ss)
  next
    case False
    then have "length G mod 2 \<noteq> 1" by presburger
    with False show ?thesis
      by (simp add: gap_statistics_def median_def Let_def p95_index_def ss)
  qed
qed

lemma the_spec_selected:
  assumes "turn_records ts"
  shows "map the (spec_selected_gap_set ts) = speaker_change_gaps ts"
proof -
  have "map the (map Some (speaker_change_gaps ts)) = speaker_change_gaps ts"
    by (simp add: comp_def)
  then show ?thesis by (simp only: speaker_change_gaps_spec [OF assms])
qed

section \<open>Properties of the drivers\<close>

lemma speaker_changes_lt_turns:
  assumes "us \<noteq> []"
  shows "Suc (speaker_changes (summarize fa name (process_transcript us fn)))
           \<le> turns (summarize fa name (process_transcript us fn))"
proof -
  have ne: "process_transcript us fn \<noteq> []"
    using assms length_process_transcript [of us fn] by auto
  have "\<not> speaker_change (last (process_transcript us fn))"
    using assms by (rule last_turn_no_change)
  with ne have "Suc (length (filter speaker_change (process_transcript us fn)))
                  \<le> length (process_transcript us fn)"
    by (rule count_filter_last_false)
  then show ?thesis by (simp add: summarize_def)
qed

lemma file_summary_cases:
  "file_summary fa f = None \<and>
     (transcribe_audio (api_response f) = None \<or>
      (\<exists>t. transcribe_audio (api_response f) = Some t
           \<and> process_transcript (utterances t) (file_name f) = []))
   \<or> (\<exists>t. transcribe_audio (api_response f) = Some t
         \<and> process_transcript (utterances t) (file_name f) \<noteq> []
         \<and> file_summary fa f =
               Some (summarize fa (file_name f)
                       (process_transcript (utterances t) (file_name f))))"
  by (cases "transcribe_audio (api_response f)") (auto simp: file_summary_def Let_def)

lemma file_summary_failed:
  "transcribe_audio (api_response f) = None \<Longrightarrow> file_summary fa f = None"
  by (simp add: file_summary_def)

lemma file_summary_Some:
  assumes "transcribe_audio (api_response g) = Some t" and "utterances t \<noteq> []"
  shows "file_summary fa g =
           Some (summarize fa (file_name g) (process_transcript (utterances t) (file_name g)))"
  using assms by (simp add: file_summary_def process_transcript_empty_iff)

lemma file_summary_silent:
  assumes "transcribe_audio (api_response f) = Some t" and "utterances t = []"
  shows "file_summary fa f = None"
  using assms by (simp add: file_summary_def process_transcript_empty_iff)

lemma file_summary_counts:
  assumes "file_summary fa f = Some s"
  shows "Suc (speaker_changes s) \<le> turns s"
proof -
  from assms obtain t where t: "transcribe_audio (api_response f) = Some t"
    and ne: "process_transcript (utterances t) (file_name f) \<noteq> []"
    and s: "s = summarize fa (file_name f) (process_transcript (utterances t) (file_name f))"
    by (auto simp: file_summary_def Let_def split: option.splits if_splits)
  from ne have "utterances t \<noteq> []" by (simp add: process_transcript_empty_iff)
  from speaker_changes_lt_turns [OF this] s show ?thesis by simp
qed

lemma map_filter_counts:
  assumes "s \<in> set (List.map_filter (file_summary fa) fs)"
  shows "int (speaker_changes s) \<le> int (turns s) - 1"
proof -
  from assms obtain f where "file_summary fa f = Some s"
    by (auto simp: List.map_filter_def)
  then have "Suc (speaker_changes s) \<le> turns s" by (rule file_summary_counts)
  then show ?thesis by linarith
qed

lemma main_loop_step:
  "main_loop fa (f # fs) acc =
     main_loop fa fs (case file_summary fa f of None \<Rightarrow> acc | Some s \<Rightarrow> acc @ [s])"
  by (simp add: file_summary_def Let_def split: option.split)

lemma main_loop_map_filter:
  "main_loop fa fs acc = acc @ List.map_filter (file_summary fa) fs"
proof (induction fs arbitrary: acc)
  case Nil
  show ?case by (simp add: List.map_filter_simps)
next
  case (Cons f fs)
  show ?case
    by (cases "file_summary fa f")
       (simp_all only: main_loop_step Cons.IH List.map_filter_simps option.case
                       append_assoc append_Cons append_Nil)
qed

lemma main_map_filter: "main fa fs = List.map_filter (file_summary fa) fs"
  by (simp add: main_def main_loop_map_filter)

lemma map_filter_append:
  "List.map_filter g (xs @ ys) = List.map_filter g xs @ List.map_filter g ys"
  by (simp add: List.map_filter_def)

lemma main_skips:
  assumes "file_summary fa f = None"
  shows "main fa (xs @ f # ys) = List.map_filter (file_summary fa) (xs @ ys)"
  using assms by (simp add: main_map_filter List.map_filter_def)

lemma uploaded_loop_step:
  "uploaded_loop fa (f # fs) acc = Inr ss \<Longrightarrow>
     uploaded_loop fa fs (case file_summary fa f of None \<Rightarrow> acc | Some s \<Rightarrow> acc @ [s]) = Inr ss"
  by (cases "transcribe_audio (api_response f)")
     (auto simp: file_summary_def Let_def split: if_splits)

lemma uploaded_loop_Inr:
  "uploaded_loop fa fs acc = Inr ss \<Longrightarrow> ss = acc @ List.map_filter (file_summary fa) fs"
proof (induction fs arbitrary: acc)
  case Nil
  then show ?case by (simp add: List.map_filter_simps)
next
  case (Cons f fs)
  from Cons.prems
  have "uploaded_loop fa fs (case file_summary fa f of None \<Rightarrow> acc | Some s \<Rightarrow> acc @ [s]) = Inr ss"
    by (rule uploaded_loop_step)
  then have "ss = (case file_summary fa f of None \<Rightarrow> acc | Some s \<Rightarrow> acc @ [s])
                    @ List.map_filter (file_summary fa) fs"
    by (rule Cons.IH)
  then show ?case
    by (cases "file_summary fa f") (simp_all add: List.map_filter_simps)
qed

lemma uploaded_loop_aborts:
  assumes "f \<in> set fs" and "transcribe_audio (api_response f) = None"
  shows "isl (uploaded_loop fa fs acc)"
  using assms
proof (induction fs arbitrary: acc)
  case Nil
  then show ?case by simp
next
  case (Cons g fs)
  show ?case
  proof (cases "g = f")
    case True
    with Cons.prems(2) show ?thesis by simp
  next
    case False
    with Cons.prems have "f \<in> set fs" by simp
    from Cons.IH [OF this Cons.prems(2)] show ?thesis
      by (simp add: Let_def split: option.split)
  qed
qed

lemma uploaded_loop_skips:
  assumes "file_suffix f \<in> SUPPORTED_EXTENSIONS" and "file_saves f"
    and "transcribe_audio (api_response f) = Some t" and "utterances t = []"
  shows "uploaded_loop fa (xs @ f # ys) acc = uploaded_loop fa (xs @ ys) acc"
proof (induction xs arbitrary: acc)
  case Nil
  from assms show ?case by (simp add: process_transcript_empty_iff)
next
  case (Cons x xs)
  show ?case by (simp add: Cons.IH Let_def split: option.split)
qed

section \<open>The concrete inputs, evaluated\<close>

lemma conversation_turns:
  "process_transcript conversation fn =
     [\<lparr> turn_file = fn, turn_index = 1, speaker = ''A'', start_ms = 0, end_ms = 1000,
         duration_ms = 1000, turn_text = [], next_speaker = ''B'',
         next_start_ms = Some 900, gap_to_next_ms = Some (- 100), speaker_change = True \<rparr>,
      \<lparr> turn_file = fn, turn_index = 2, speaker = ''B'', start_ms = 900, end_ms = 1800,
         duration_ms = 900, turn_text = [], next_speaker = ''A'',
         next_start_ms = Some 1800, gap_to_next_ms = Some 0, speaker_change = True \<rparr>,
      \<lparr> turn_file = fn, turn_index = 3, speaker = ''A'', start_ms = 1800, end_ms = 2500,
         duration_ms = 700, turn_text = [], next_speaker = [],
         next_start_ms = None, gap_to_next_ms = None, speaker_change = False \<rparr>]"
  by (simp add: process_transcript_def sorted_utterances_def conversation_def utt_def
                turn_data_def upt_rec)

lemma monologue_turns:
  "process_transcript monologue fn =
     [\<lparr> turn_file = fn, turn_index = 1, speaker = ''A'', start_ms = 0, end_ms = 100,
         duration_ms = 100, turn_text = [], next_speaker = ''A'',
         next_start_ms = Some 150, gap_to_next_ms = Some 50, speaker_change = False \<rparr>,
      \<lparr> turn_file = fn, turn_index = 2, speaker = ''A'', start_ms = 150, end_ms = 300,
         duration_ms = 150, turn_text = [], next_speaker = ''A'',
         next_start_ms = Some 400, gap_to_next_ms = Some 100, speaker_change = False \<rparr>,
      \<lparr> turn_file = fn, turn_index = 3, speaker = ''A'', start_ms = 400, end_ms = 500,
         duration_ms = 100, turn_text = [], next_speaker = [],
         next_start_ms = None, gap_to_next_ms = None, speaker_change = False \<rparr>]"
  by (simp add: process_transcript_def sorted_utterances_def monologue_def utt_def
                turn_data_def upt_rec Let_def)

lemma solo_turns:
  "process_transcript solo fn =
     [\<lparr> turn_file = fn, turn_index = 1, speaker = ''A'', start_ms = 0, end_ms = 500,
         duration_ms = 500, turn_text = [], next_speaker = [],
         next_start_ms = None, gap_to_next_ms = None, speaker_change = False \<rparr>]"
  by (simp add: process_transcript_def sorted_utterances_def solo_def utt_def
                turn_data_def upt_rec Let_def)

lemma dialogue_gaps:
  "speaker_change_gaps (process_transcript dialogue fn) = [300, - 50, 120, 40, 700]"
  by (simp add: process_transcript_def sorted_utterances_def dialogue_def utt_def
                turn_data_def upt_rec speaker_change_gaps_def Let_def)

lemma dialogue_turns_ne: "process_transcript dialogue fn \<noteq> []"
  by (simp add: process_transcript_empty_iff dialogue_def)

lemma exact_round2_int: "round2 exact_ops (of_int k) = of_int k"
  by (simp add: exact_ops_def round_half_even_def)

lemma exact_truediv: "truediv exact_ops a b = of_int a / of_int b"
  by (simp add: exact_ops_def)

lemma exact_times_int: "times_int exact_ops x k = x * of_int k"
  by (simp add: exact_ops_def)

lemma monologue_stats:
  "calculate_summary_stats exact_ops (process_transcript monologue fn) =
     Some \<lparr> avg_gap_ms = Some (PyFloat 75), median_gap_ms = Some (PyFloat 75),
            p95_gap_ms = Some (PyInt 100), overlap_rate = Some (PyFloat 0),
            avg_positive_gap_ms = Some (PyFloat 75) \<rparr>"
proof -
  have g: "speaker_change_gaps (process_transcript monologue fn) = [50, 100]"
    by (simp add: monologue_turns speaker_change_gaps_def)
  have r: "round2 exact_ops 75 = 75" "round2 exact_ops 0 = 0"
    using exact_round2_int [of 75] exact_round2_int [of 0] by simp_all
  have ne: "process_transcript monologue fn \<noteq> []" by (simp add: monologue_turns)
  show ?thesis
    using ne by (simp add: calculate_summary_stats_def g gap_statistics_def median_def
                  p95_index_def Let_def exact_truediv exact_times_int r)
qed

lemma conversation_stats:
  "calculate_summary_stats exact_ops (process_transcript conversation fn) =
     Some \<lparr> avg_gap_ms = Some (PyFloat (- 50)), median_gap_ms = Some (PyFloat (- 50)),
            p95_gap_ms = Some (PyInt 0), overlap_rate = Some (PyFloat 50),
            avg_positive_gap_ms = None \<rparr>"
proof -
  have g: "speaker_change_gaps (process_transcript conversation fn) = [- 100, 0]"
    by (simp add: conversation_turns speaker_change_gaps_def)
  have r: "round2 exact_ops (- 50) = - 50" "round2 exact_ops 50 = 50"
    using exact_round2_int [of "- 50"] exact_round2_int [of 50] by simp_all
  have ne: "process_transcript conversation fn \<noteq> []" by (simp add: conversation_turns)
  show ?thesis
    using ne by (simp add: calculate_summary_stats_def g gap_statistics_def median_def
                  p95_index_def Let_def exact_truediv exact_times_int r)
qed

lemma good_file_transcribed:
  "transcribe_audio (api_response good_file) = Some \<lparr> status = St_completed, utterances = conversation \<rparr>"
  by (simp add: good_file_def transcribe_audio_def)

lemma good_file_summary:
  "file_summary exact_ops good_file =
     Some \<lparr> summary_file = ''good.mp3'', turns = 3, speaker_changes = 2,
            stats = Some \<lparr> avg_gap_ms = Some (PyFloat (- 50)),
                           median_gap_ms = Some (PyFloat (- 50)),
                           p95_gap_ms = Some (PyInt 0), overlap_rate = Some (PyFloat 50),
                           avg_positive_gap_ms = None \<rparr> \<rparr>"
proof -
  have n: "file_name good_file = ''good.mp3''" by (simp add: good_file_def)
  have c: "conversation \<noteq> []" by (simp add: conversation_def)
  have "file_summary exact_ops good_file =
          Some (summarize exact_ops ''good.mp3'' (process_transcript conversation ''good.mp3''))"
    using file_summary_Some [OF good_file_transcribed, of exact_ops] c by (simp add: n)
  also have "summarize exact_ops ''good.mp3'' (process_transcript conversation ''good.mp3'') =
     \<lparr> summary_file = ''good.mp3'', turns = 3, speaker_changes = 2,
            stats = Some \<lparr> avg_gap_ms = Some (PyFloat (- 50)),
                           median_gap_ms = Some (PyFloat (- 50)),
                           p95_gap_ms = Some (PyInt 0), overlap_rate = Some (PyFloat 50),
                           avg_positive_gap_ms = None \<rparr> \<rparr>"
    by (simp add: summarize_def conversation_stats) (simp add: conversation_turns)
  finally show ?thesis .
qed

section \<open>The claims\<close>

text \<open>
  C1, as the code has it. In the command-line driver a file whose transcription fails
  contributes nothing: the summaries of the batch are, in order, those of the files
  before it and of the files after it, and the summary of each such file is computed
  from that file alone, from its own transcript and name. The web driver answers a
  batch that holds a file whose transcription fails with an exception, and returns no
  summary.
\<close>

theorem failed_file_skipped_or_request_aborted:
  assumes "transcribe_audio (api_response f) = None"
  shows "main fa (xs @ f # ys)
           = List.map_filter (file_summary fa) xs @ List.map_filter (file_summary fa) ys
       \<and> main fa (xs @ f # ys) = main fa xs @ main fa ys
       \<and> file_summary fa f = None
       \<and> (transcribe_audio (api_response g) = Some t \<longrightarrow> utterances t \<noteq> [] \<longrightarrow>
            file_summary fa g =
              Some (summarize fa (file_name g)
                      (process_transcript (utterances t) (file_name g))))
       \<and> isl (process_uploaded_files fa (xs @ f # ys))"
proof (intro conjI impI)
  have none: "file_summary fa f = None" using assms by (rule file_summary_failed)
  then show "file_summary fa f = None" .
  from none show "main fa (xs @ f # ys)
           = List.map_filter (file_summary fa) xs @ List.map_filter (file_summary fa) ys"
    by (simp only: main_skips map_filter_append)
  then show "main fa (xs @ f # ys) = main fa xs @ main fa ys"
    by (simp only: main_map_filter)
next
  assume "transcribe_audio (api_response g) = Some t" and "utterances t \<noteq> []"
  then show "file_summary fa g =
              Some (summarize fa (file_name g)
                      (process_transcript (utterances t) (file_name g)))"
    by (rule file_summary_Some)
next
  have "f \<in> set (xs @ f # ys)" by simp
  then show "isl (process_uploaded_files fa (xs @ f # ys))"
    unfolding process_uploaded_files_def using assms by (rule uploaded_loop_aborts)
qed

theorem failed_file_skipped_or_request_aborted_witness:
  "transcribe_audio (api_response failed_file) = None
   \<and> main exact_ops ([good_file] @ failed_file # [good_file]) =
       [\<lparr> summary_file = ''good.mp3'', turns = 3, speaker_changes = 2,
          stats = Some \<lparr> avg_gap_ms = Some (PyFloat (- 50)),
                         median_gap_ms = Some (PyFloat (- 50)),
                         p95_gap_ms = Some (PyInt 0), overlap_rate = Some (PyFloat 50),
                         avg_positive_gap_ms = None \<rparr> \<rparr>,
        \<lparr> summary_file = ''good.mp3'', turns = 3, speaker_changes = 2,
          stats = Some \<lparr> avg_gap_ms = Some (PyFloat (- 50)),
                         median_gap_ms = Some (PyFloat (- 50)),
                         p95_gap_ms = Some (PyInt 0), overlap_rate = Some (PyFloat 50),
                         avg_positive_gap_ms = None \<rparr> \<rparr>]
   \<and> file_summary exact_ops failed_file = None
   \<and> transcribe_audio (api_response good_file)
       = Some \<lparr> status = St_completed, utterances = conversation \<rparr>
   \<and> utterances \<lparr> status = St_completed, utterances = conversation \<rparr> \<noteq> []
   \<and> file_summary exact_ops good_file =
       Some (summarize exact_ops (file_name good_file)
               (process_transcript conversation (file_name good_file)))
   \<and> isl (process_uploaded_files exact_ops ([good_file] @ failed_file # [good_file]))"
proof -
  have f: "transcribe_audio (api_response failed_file) = None"
    by (simp add: failed_file_def transcribe_audio_def)
  have c: "conversation \<noteq> []" by (simp add: conversation_def)
  from failed_file_skipped_or_request_aborted
         [OF f, of exact_ops "[good_file]" "[good_file]" good_file
            "\<lparr> status = St_completed, utterances = conversation \<rparr>"]
       f c good_file_transcribed
  show ?thesis by (simp add: List.map_filter_simps good_file_summary)
qed

text \<open>
  C1 as stated fails in the web driver: with a file that fails to transcribe before a
  good one, the request ends with the exception of status 500 and the good file, which
  alone is summarized, is never processed.
\<close>

theorem upload_batch_aborted_by_one_failure:
  "process_uploaded_files exact_ops [failed_file, good_file] = Inl (Transcription_failed ''bad.mp3'')
   \<and> status_code (Transcription_failed ''bad.mp3'') = 500
   \<and> \<not> isl (process_uploaded_files exact_ops [good_file])"
  by (simp add: process_uploaded_files_def failed_file_def good_file_def transcribe_audio_def
                SUPPORTED_EXTENSIONS_def conversation_turns)

text \<open>
  C2. For a non-empty sequence of Turn Records (every speaker change has a gap), the
  gaps the Aggregator selects are the gaps of the turns whose speaker change is true,
  or, when there is none, the gaps of all turns that have one. Each of the five
  statistics returned is computed from that selected set \<open>G\<close>: the rounded mean, the
  median of the sorted \<open>G\<close>, the element at the 95th percentile index, the rounded
  percentage of negative gaps and the rounded mean of the positive gaps; all five are
  absent when \<open>G\<close> is empty.
\<close>

theorem selected_gap_set_with_fallback:
  assumes "ts \<noteq> []" and "turn_records ts"
  shows "map Some (speaker_change_gaps ts) = spec_selected_gap_set ts
       \<and> calculate_summary_stats fa ts =
           Some (let G = map the (spec_selected_gap_set ts); n = length G; S = sort G
                 in if G = []
                    then \<lparr> avg_gap_ms = None, median_gap_ms = None, p95_gap_ms = None,
                            overlap_rate = None, avg_positive_gap_ms = None \<rparr>
                    else
                      \<lparr> avg_gap_ms = Some (PyFloat (round2 fa (truediv fa (sum_list G) (int n)))),
                        median_gap_ms =
                          Some (if odd n then PyInt (S ! (n div 2))
                                else PyFloat (round2 fa
                                       (truediv fa (S ! (n div 2 - 1) + S ! (n div 2)) 2))),
                        p95_gap_ms = Some (PyInt (S ! min (nat \<lfloor>real n * 0.95\<rfloor>) (n - 1))),
                        overlap_rate =
                          Some (PyFloat (round2 fa
                                  (times_int fa
                                     (truediv fa (int (length (filter (\<lambda>g. g < 0) G))) (int n)) 100))),
                        avg_positive_gap_ms =
                          (if filter (\<lambda>g. 0 < g) G = [] then None
                           else Some (PyFloat (round2 fa
                                  (truediv fa (sum_list (filter (\<lambda>g. 0 < g) G))
                                     (int (length (filter (\<lambda>g. 0 < g) G))))))) \<rparr>)"
proof
  show "map Some (speaker_change_gaps ts) = spec_selected_gap_set ts"
    using assms(2) by (rule speaker_change_gaps_spec)
next
  have G: "map the (spec_selected_gap_set ts) = speaker_change_gaps ts"
    using assms(2) by (rule the_spec_selected)
  show "calculate_summary_stats fa ts =
           Some (let G = map the (spec_selected_gap_set ts); n = length G; S = sort G
                 in if G = []
                    then \<lparr> avg_gap_ms = None, median_gap_ms = None, p95_gap_ms = None,
                            overlap_rate = None, avg_positive_gap_ms = None \<rparr>
                    else
                      \<lparr> avg_gap_ms = Some (PyFloat (round2 fa (truediv fa (sum_list G) (int n)))),
                        median_gap_ms =
                          Some (if odd n then PyInt (S ! (n div 2))
                                else PyFloat (round2 fa
                                       (truediv fa (S ! (n div 2 - 1) + S ! (n div 2)) 2))),
                        p95_gap_ms = Some (PyInt (S ! min (nat \<lfloor>real n * 0.95\<rfloor>) (n - 1))),
                        overlap_rate =
                          Some (PyFloat (round2 fa
                                  (times_int fa
                                     (truediv fa (int (length (filter (\<lambda>g. g < 0) G))) (int n)) 100))),
                        avg_positive_gap_ms =
                          (if filter (\<lambda>g. 0 < g) G = [] then None
                           else Some (PyFloat (round2 fa
                                  (truediv fa (sum_list (filter (\<lambda>g. 0 < g) G))
                                     (int (length (filter (\<lambda>g. 0 < g) G))))))) \<rparr>)"
    unfolding G Let_def
    using assms(1) by (simp add: calculate_summary_stats_def gap_statistics_explicit Let_def)
qed

theorem selected_gap_set_with_fallback_witness:
  "process_transcript monologue ''a.mp3'' \<noteq> []
   \<and> turn_records (process_transcript monologue ''a.mp3'')
   \<and> spec_speaker_change_gap_set (process_transcript monologue ''a.mp3'') = []
   \<and> map Some (speaker_change_gaps (process_transcript monologue ''a.mp3'')) = [Some 50, Some 100]
   \<and> spec_selected_gap_set (process_transcript monologue ''a.mp3'') = [Some 50, Some 100]
   \<and> calculate_summary_stats exact_ops (process_transcript monologue ''a.mp3'') =
         Some \<lparr> avg_gap_ms = Some (PyFloat 75), median_gap_ms = Some (PyFloat 75),
                p95_gap_ms = Some (PyInt 100), overlap_rate = Some (PyFloat 0),
                avg_positive_gap_ms = Some (PyFloat 75) \<rparr>"
proof -
  have ne: "process_transcript monologue ''a.mp3'' \<noteq> []" by (simp add: monologue_turns)
  have tr: "turn_records (process_transcript monologue ''a.mp3'')"
    by (rule turn_records_process_transcript)
  have g: "speaker_change_gaps (process_transcript monologue ''a.mp3'') = [50, 100]"
    by (simp add: monologue_turns speaker_change_gaps_def)
  have e: "spec_speaker_change_gap_set (process_transcript monologue ''a.mp3'') = []"
    by (simp add: monologue_turns spec_speaker_change_gap_set_def)
  from selected_gap_set_with_fallback [OF ne tr, of exact_ops]
  have "map Some (speaker_change_gaps (process_transcript monologue ''a.mp3''))
          = spec_selected_gap_set (process_transcript monologue ''a.mp3'')"
    by (rule conjunct1)
  with ne tr e show ?thesis by (simp add: g monologue_stats)
qed

text \<open>
  C3, as the code has it. For a non-empty sequence of Turn Records with no gap to
  select, the summary has the number of turns, zero speaker changes and five absent
  statistics; when the Transformer produced the sequence it has exactly one turn. For
  zero turns there is no summary: the Transformer returns no turn for no utterance, the
  Aggregator returns the empty dictionary, and a file whose transcript has no utterance
  is skipped by both drivers, whose result is that of the other files of the batch.
\<close>

theorem empty_gap_set_summary:
  "(ts \<noteq> [] \<longrightarrow> turn_records ts \<longrightarrow> speaker_change_gaps ts = [] \<longrightarrow>
      summarize fa name ts =
        \<lparr> summary_file = name, turns = length ts, speaker_changes = 0,
          stats = Some \<lparr> avg_gap_ms = None, median_gap_ms = None, p95_gap_ms = None,
                         overlap_rate = None, avg_positive_gap_ms = None \<rparr> \<rparr>
      \<and> (ts = process_transcript us fn \<longrightarrow> length ts = 1))
   \<and> process_transcript [] fn = []
   \<and> calculate_summary_stats fa [] = None
   \<and> (transcribe_audio (api_response f) = Some t \<longrightarrow> utterances t = [] \<longrightarrow>
        file_summary fa f = None
        \<and> main fa (xs @ f # ys) = List.map_filter (file_summary fa) (xs @ ys)
        \<and> (file_suffix f \<in> SUPPORTED_EXTENSIONS \<longrightarrow> file_saves f \<longrightarrow>
             process_uploaded_files fa (xs @ f # ys) = process_uploaded_files fa (xs @ ys)
             \<and> (process_uploaded_files fa (xs @ f # ys) = Inr ss \<longrightarrow>
                  ss = List.map_filter (file_summary fa) (xs @ ys))))"
proof (intro conjI impI)
  assume ne: "ts \<noteq> []" and tr: "turn_records ts" and g: "speaker_change_gaps ts = []"
  have "\<And>t. t \<in> set ts \<Longrightarrow> \<not> speaker_change t"
  proof
    fix t assume t: "t \<in> set ts" and c: "speaker_change t"
    from g t have "gap_to_next_ms t = None" by (rule empty_gaps_no_gap)
    moreover from tr t c have "gap_to_next_ms t \<noteq> None"
      by (simp add: turn_records_def list_all_iff)
    ultimately show False by simp
  qed
  then have nochange: "filter speaker_change ts = []" by (simp add: filter_empty_conv)
  show "summarize fa name ts =
        \<lparr> summary_file = name, turns = length ts, speaker_changes = 0,
          stats = Some \<lparr> avg_gap_ms = None, median_gap_ms = None, p95_gap_ms = None,
                         overlap_rate = None, avg_positive_gap_ms = None \<rparr> \<rparr>"
    using ne g by (simp add: summarize_def nochange calculate_summary_stats_def)
  assume eq: "ts = process_transcript us fn"
  with ne have "us \<noteq> []" by (simp add: process_transcript_empty_iff)
  moreover from g eq have "speaker_change_gaps (process_transcript us fn) = []" by simp
  ultimately have "length us = 1" by (rule empty_gaps_single_turn)
  with eq show "length ts = 1" by (simp add: length_process_transcript)
next
  show "process_transcript [] fn = []" by (simp add: process_transcript_def)
  show "calculate_summary_stats fa [] = None" by (simp add: calculate_summary_stats_def)
next
  assume t: "transcribe_audio (api_response f) = Some t" and u: "utterances t = []"
  from t u show none: "file_summary fa f = None" by (rule file_summary_silent)
  then show "main fa (xs @ f # ys) = List.map_filter (file_summary fa) (xs @ ys)"
    by (rule main_skips)
  assume s: "file_suffix f \<in> SUPPORTED_EXTENSIONS" and w: "file_saves f"
  from s w t u show eq: "process_uploaded_files fa (xs @ f # ys) = process_uploaded_files fa (xs @ ys)"
    unfolding process_uploaded_files_def by (rule uploaded_loop_skips)
  assume "process_uploaded_files fa (xs @ f # ys) = Inr ss"
  with eq have "uploaded_loop fa (xs @ ys) [] = Inr ss"
    by (simp add: process_uploaded_files_def)
  then have "ss = [] @ List.map_filter (file_summary fa) (xs @ ys)"
    by (rule uploaded_loop_Inr)
  then show "ss = List.map_filter (file_summary fa) (xs @ ys)" by simp
qed

theorem empty_gap_set_summary_witness:
  "process_transcript solo ''a.mp3'' \<noteq> []
   \<and> turn_records (process_transcript solo ''a.mp3'')
   \<and> speaker_change_gaps (process_transcript solo ''a.mp3'') = []
   \<and> summarize exact_ops ''a.mp3'' (process_transcript solo ''a.mp3'') =
           \<lparr> summary_file = ''a.mp3'', turns = 1, speaker_changes = 0,
             stats = Some \<lparr> avg_gap_ms = None, median_gap_ms = None, p95_gap_ms = None,
                            overlap_rate = None, avg_positive_gap_ms = None \<rparr> \<rparr>
   \<and> length (process_transcript solo ''a.mp3'') = 1
   \<and> transcribe_audio (api_response silent_file) = Some \<lparr> status = St_completed, utterances = [] \<rparr>
   \<and> utterances \<lparr> status = St_completed, utterances = [] \<rparr> = []
   \<and> file_summary exact_ops silent_file = None
   \<and> main exact_ops ([good_file] @ silent_file # []) =
        [\<lparr> summary_file = ''good.mp3'', turns = 3, speaker_changes = 2,
           stats = Some \<lparr> avg_gap_ms = Some (PyFloat (- 50)),
                          median_gap_ms = Some (PyFloat (- 50)),
                          p95_gap_ms = Some (PyInt 0), overlap_rate = Some (PyFloat 50),
                          avg_positive_gap_ms = None \<rparr> \<rparr>]
   \<and> file_suffix silent_file \<in> SUPPORTED_EXTENSIONS
   \<and> file_saves silent_file
   \<and> process_uploaded_files exact_ops ([good_file] @ silent_file # []) =
        Inr [\<lparr> summary_file = ''good.mp3'', turns = 3, speaker_changes = 2,
           stats = Some \<lparr> avg_gap_ms = Some (PyFloat (- 50)),
                          median_gap_ms = Some (PyFloat (- 50)),
                          p95_gap_ms = Some (PyInt 0), overlap_rate = Some (PyFloat 50),
                          avg_positive_gap_ms = None \<rparr> \<rparr>]"
proof -
  have ne: "process_transcript solo ''a.mp3'' \<noteq> []" by (simp add: solo_turns)
  have tr: "turn_records (process_transcript solo ''a.mp3'')"
    by (rule turn_records_process_transcript)
  have g: "speaker_change_gaps (process_transcript solo ''a.mp3'') = []"
    by (simp add: solo_turns speaker_change_gaps_def)
  have t: "transcribe_audio (api_response silent_file)
             = Some \<lparr> status = St_completed, utterances = [] \<rparr>"
    by (simp add: silent_file_def transcribe_audio_def)
  have s: "file_suffix silent_file \<in> SUPPORTED_EXTENSIONS" "file_saves silent_file"
    by (simp_all add: silent_file_def SUPPORTED_EXTENSIONS_def)
  have u: "process_uploaded_files exact_ops [good_file] =
             Inr (List.map_filter (file_summary exact_ops) [good_file])"
    by (simp add: process_uploaded_files_def good_file_def transcribe_audio_def
          SUPPORTED_EXTENSIONS_def conversation_turns List.map_filter_simps file_summary_def)
  from empty_gap_set_summary
         [of "process_transcript solo ''a.mp3''" exact_ops "''a.mp3''" solo "''a.mp3''"
             silent_file "\<lparr> status = St_completed, utterances = [] \<rparr>" "[good_file]" "[]"
             "List.map_filter (file_summary exact_ops) [good_file]"]
       ne tr g t s
  show ?thesis by (simp add: u List.map_filter_simps good_file_summary)
qed

text \<open>
  C3 as stated fails for zero turns: the Aggregator returns the empty dictionary, and
  both drivers skip the file, so no summary with the counts 0 and 0 is emitted.
\<close>

theorem no_summary_for_zero_turns:
  "process_transcript (utterances \<lparr> status = St_completed, utterances = [] \<rparr>) ''silent.mp3'' = []
   \<and> calculate_summary_stats exact_ops [] = None
   \<and> main exact_ops [silent_file] = []
   \<and> process_uploaded_files exact_ops [silent_file] = Inr []"
  by (simp add: process_transcript_def calculate_summary_stats_def main_def
                process_uploaded_files_def silent_file_def transcribe_audio_def
                SUPPORTED_EXTENSIONS_def)

text \<open>
  C4. When \<open>G\<close>, the selected gaps, is not empty, the 95th percentile reported is the
  element of the sorted \<open>G\<close> at index \<open>min (floor (n * 0.95)) (n - 1)\<close>, an element of
  \<open>G\<close> itself, neither interpolated nor rounded; for five gaps it is the maximum.
\<close>

theorem p95_nearest_rank:
  assumes "ts \<noteq> []" and "speaker_change_gaps ts = G" and "G \<noteq> []"
  shows "map_option p95_gap_ms (calculate_summary_stats fa ts) =
           Some (Some (PyInt (sort G ! min (nat \<lfloor>real (length G) * 0.95\<rfloor>) (length G - 1))))
       \<and> (length G = 5 \<longrightarrow>
            map_option p95_gap_ms (calculate_summary_stats fa ts) =
              Some (Some (PyInt (Max (set G)))))"
proof -
  from assms have c: "calculate_summary_stats fa ts = Some (gap_statistics fa G)"
    using calculate_summary_stats_nonempty [of ts fa] by simp
  have a: "map_option p95_gap_ms (calculate_summary_stats fa ts) =
           Some (Some (PyInt (sort G ! min (p95_index (length G)) (length G - 1))))"
    by (simp add: c p95_of_gap_statistics)
  have b: "length G = 5 \<Longrightarrow> sort G ! min (p95_index (length G)) (length G - 1) = Max (set G)"
  proof -
    assume five: "length G = 5"
    then have "0 < length G" and "length G \<le> 20" by simp_all
    then have "min (p95_index (length G)) (length G - 1) = length G - 1"
      by (rule p95_index_small)
    then show ?thesis by (simp only: sorted_last_Max [OF assms(3)])
  qed
  show ?thesis
  proof (intro conjI impI)
    show "map_option p95_gap_ms (calculate_summary_stats fa ts) =
           Some (Some (PyInt (sort G ! min (nat \<lfloor>real (length G) * 0.95\<rfloor>) (length G - 1))))"
      using a by (simp only: p95_index_def)
  next
    assume "length G = 5"
    then have "sort G ! min (p95_index (length G)) (length G - 1) = Max (set G)" by (rule b)
    with a show "map_option p95_gap_ms (calculate_summary_stats fa ts) =
              Some (Some (PyInt (Max (set G))))"
      by (simp only:)
  qed
qed

theorem p95_nearest_rank_witness:
  "process_transcript dialogue ''a.mp3'' \<noteq> []
   \<and> speaker_change_gaps (process_transcript dialogue ''a.mp3'') = [300, - 50, 120, 40, 700]
   \<and> [300, - 50, 120, 40, 700 :: int] \<noteq> []
   \<and> length [300, - 50, 120, 40, 700 :: int] = 5
   \<and> Max (set [300, - 50, 120, 40, 700 :: int]) = 700
   \<and> map_option p95_gap_ms (calculate_summary_stats exact_ops (process_transcript dialogue ''a.mp3''))
        = Some (Some (PyInt 700))"
proof -
  have ne: "process_transcript dialogue ''a.mp3'' \<noteq> []" by (rule dialogue_turns_ne)
  have g: "speaker_change_gaps (process_transcript dialogue ''a.mp3'') = [300, - 50, 120, 40, 700]"
    by (rule dialogue_gaps)
  have n: "[300, - 50, 120, 40, 700 :: int] \<noteq> []" by simp
  from p95_nearest_rank [OF ne g n, of exact_ops] ne g
  show ?thesis by simp
qed

text \<open>
  C5. When the selected gaps are not empty, the average positive gap is the rounded
  quotient of the sum of the gaps above zero by their number, and it is absent, not
  zero, when no gap is above zero.
\<close>

theorem avg_positive_gap_mean_or_absent:
  assumes "ts \<noteq> []" and "speaker_change_gaps ts = G" and "G \<noteq> []"
  shows "map_option avg_positive_gap_ms (calculate_summary_stats fa ts) =
           Some (if filter (\<lambda>g. 0 < g) G = [] then None
                 else Some (PyFloat (round2 fa
                        (truediv fa (sum_list (filter (\<lambda>g. 0 < g) G))
                                    (int (length (filter (\<lambda>g. 0 < g) G)))))))"
proof -
  from assms have c: "calculate_summary_stats fa ts = Some (gap_statistics fa G)"
    using calculate_summary_stats_nonempty [of ts fa] by simp
  show ?thesis by (simp add: c gap_statistics_def Let_def)
qed

theorem avg_positive_gap_mean_or_absent_witness:
  "process_transcript dialogue ''a.mp3'' \<noteq> []
   \<and> speaker_change_gaps (process_transcript dialogue ''a.mp3'') = [300, - 50, 120, 40, 700]
   \<and> [300, - 50, 120, 40, 700 :: int] \<noteq> []
   \<and> map_option avg_positive_gap_ms
         (calculate_summary_stats exact_ops (process_transcript dialogue ''a.mp3''))
        = Some (Some (PyFloat 290))
   \<and> process_transcript conversation ''a.mp3'' \<noteq> []
   \<and> speaker_change_gaps (process_transcript conversation ''a.mp3'') = [- 100, 0]
   \<and> [- 100, 0 :: int] \<noteq> []
   \<and> map_option avg_positive_gap_ms
         (calculate_summary_stats exact_ops (process_transcript conversation ''a.mp3''))
        = Some None"
proof -
  have ne: "process_transcript dialogue ''a.mp3'' \<noteq> []" by (rule dialogue_turns_ne)
  have g: "speaker_change_gaps (process_transcript dialogue ''a.mp3'') = [300, - 50, 120, 40, 700]"
    by (rule dialogue_gaps)
  have n: "[300, - 50, 120, 40, 700 :: int] \<noteq> []" by simp
  have ne': "process_transcript conversation ''a.mp3'' \<noteq> []" by (simp add: conversation_turns)
  have g': "speaker_change_gaps (process_transcript conversation ''a.mp3'') = [- 100, 0]"
    by (simp add: conversation_turns speaker_change_gaps_def)
  have n': "[- 100, 0 :: int] \<noteq> []" by simp
  have r: "round2 exact_ops (truediv exact_ops 1160 4) = 290"
    using exact_round2_int [of 290] by (simp add: exact_truediv)
  from avg_positive_gap_mean_or_absent [OF ne g n, of exact_ops]
       avg_positive_gap_mean_or_absent [OF ne' g' n', of exact_ops] ne g ne' g'
  show ?thesis by (simp add: r)
qed

text \<open>
  C6. For a non-empty utterance list, the last turn has no speaker change, an empty
  next speaker, and neither a next start time nor a gap, whoever its speaker is.
\<close>

theorem last_turn_terminal:
  assumes "us \<noteq> []"
  shows "speaker_change (last (process_transcript us fn)) = False
       \<and> next_speaker (last (process_transcript us fn)) = []
       \<and> next_start_ms (last (process_transcript us fn)) = None
       \<and> gap_to_next_ms (last (process_transcript us fn)) = None"
proof -
  from assms have "Suc (length us - 1) = length (sorted_utterances us)"
    by (simp add: length_sorted_utterances)
  note fields = turn_data_last_fields [OF this, of fn]
  show ?thesis
    by (simp only: last_process_transcript [OF assms] fields simp_thms)
qed

theorem last_turn_terminal_witness:
  "conversation \<noteq> []
   \<and> speaker_change (last (process_transcript conversation ''a.mp3'')) = False
   \<and> next_speaker (last (process_transcript conversation ''a.mp3'')) = []
   \<and> next_start_ms (last (process_transcript conversation ''a.mp3'')) = None
   \<and> gap_to_next_ms (last (process_transcript conversation ''a.mp3'')) = None"
proof -
  have ne: "conversation \<noteq> []" by (simp add: conversation_def)
  from ne last_turn_terminal [OF ne, of "''a.mp3''"] show ?thesis by simp
qed

text \<open>
  C7. On utterances sorted by start time, the turn at a non-last index \<open>i\<close> has the gap
  start of utterance \<open>i + 1\<close> minus end of utterance \<open>i\<close>, whatever its sign, and is a
  speaker change exactly when the two speakers differ.
\<close>

theorem gap_between_consecutive_turns:
  assumes "sorted (map u_start us)" and "Suc i < length us"
  shows "gap_to_next_ms (process_transcript us fn ! i) = Some (u_start (us ! Suc i) - u_end (us ! i))
       \<and> speaker_change (process_transcript us fn ! i) = (u_speaker (us ! i) \<noteq> u_speaker (us ! Suc i))"
proof -
  from assms(1) have id: "sorted_utterances us = us" by (rule sorted_utterances_id)
  from assms(2) have "i < length us" by simp
  then have "process_transcript us fn ! i = turn_data us fn i"
    by (simp add: nth_process_transcript id)
  with assms(2) show ?thesis by (simp add: turn_data_inner)
qed

theorem gap_between_consecutive_turns_witness:
  "sorted (map u_start conversation) \<and> Suc 0 < length conversation
   \<and> gap_to_next_ms (process_transcript conversation ''a.mp3'' ! 0) = Some (- 100)
   \<and> speaker_change (process_transcript conversation ''a.mp3'' ! 0) = True"
proof -
  have s: "sorted (map u_start conversation)" by (simp add: conversation_def utt_def)
  have l: "Suc 0 < length conversation" by (simp add: conversation_def)
  from gap_between_consecutive_turns [OF s l, of "''a.mp3''"] s l
  show ?thesis by (simp add: conversation_def utt_def)
qed

text \<open>
  C8. The Normalizer returns the same utterances (as a multiset), in ascending order of
  start time, and it is stable: for every start time, the utterances that have it come
  in the order of the input.
\<close>

theorem normalizer_stable_sort:
  "mset (sorted_utterances us) = mset us
   \<and> sorted (map u_start (sorted_utterances us))
   \<and> (\<forall>k. filter (\<lambda>u. u_start u = k) (sorted_utterances us) = filter (\<lambda>u. u_start u = k) us)"
  by (simp add: sorted_utterances_def sort_key_stable)

text \<open>
  C10. In the turns the Transformer produces, every speaker change has a gap; so the
  number of speaker changes of a summary is at most the number of turns minus one, for
  a non-empty utterance list and in every summary either driver returns.
\<close>

theorem speaker_change_has_gap_and_count_bound:
  "(\<forall>t \<in> set (process_transcript us fn). speaker_change t \<longrightarrow> gap_to_next_ms t \<noteq> None)
   \<and> (us \<noteq> [] \<longrightarrow>
        int (speaker_changes (summarize fa fn (process_transcript us fn)))
          \<le> int (turns (summarize fa fn (process_transcript us fn))) - 1)
   \<and> (\<forall>s \<in> set (main fa files). int (speaker_changes s) \<le> int (turns s) - 1)
   \<and> (\<forall>ss. process_uploaded_files fa files = Inr ss \<longrightarrow>
         (\<forall>s \<in> set ss. int (speaker_changes s) \<le> int (turns s) - 1))"
proof (intro conjI)
  show "\<forall>t \<in> set (process_transcript us fn). speaker_change t \<longrightarrow> gap_to_next_ms t \<noteq> None"
    using process_transcript_change_has_gap by blast
  show "us \<noteq> [] \<longrightarrow>
        int (speaker_changes (summarize fa fn (process_transcript us fn)))
          \<le> int (turns (summarize fa fn (process_transcript us fn))) - 1"
    using speaker_changes_lt_turns [of us fa fn fn] by auto
  show "\<forall>s \<in> set (main fa files). int (speaker_changes s) \<le> int (turns s) - 1"
    by (simp only: main_map_filter) (blast intro: map_filter_counts)
  show "\<forall>ss. process_uploaded_files fa files = Inr ss \<longrightarrow>
         (\<forall>s \<in> set ss. int (speaker_changes s) \<le> int (turns s) - 1)"
  proof (intro allI impI ballI)
    fix ss s
    assume "process_uploaded_files fa files = Inr ss" and "s \<in> set ss"
    then have "s \<in> set (List.map_filter (file_summary fa) files)"
      using uploaded_loop_Inr [of fa files "[]" ss]
      by (simp add: process_uploaded_files_def)
    then show "int (speaker_changes s) \<le> int (turns s) - 1"
      by (rule map_filter_counts)
  qed
qed

theorem speaker_change_has_gap_and_count_bound_witness:
  "hd (process_transcript conversation ''a.mp3'') \<in> set (process_transcript conversation ''a.mp3'')
   \<and> speaker_change (hd (process_transcript conversation ''a.mp3''))
   \<and> gap_to_next_ms (hd (process_transcript conversation ''a.mp3'')) \<noteq> None
   \<and> conversation \<noteq> []
   \<and> int (speaker_changes (summarize exact_ops ''a.mp3'' (process_transcript conversation ''a.mp3'')))
        \<le> int (turns (summarize exact_ops ''a.mp3'' (process_transcript conversation ''a.mp3''))) - 1
   \<and> hd (main exact_ops [good_file]) \<in> set (main exact_ops [good_file])
   \<and> int (speaker_changes (hd (main exact_ops [good_file])))
        \<le> int (turns (hd (main exact_ops [good_file]))) - 1
   \<and> process_uploaded_files exact_ops [good_file] =
        Inr [summarize exact_ops ''good.mp3'' (process_transcript conversation ''good.mp3'')]
   \<and> int (speaker_changes (summarize exact_ops ''good.mp3''
                               (process_transcript conversation ''good.mp3'')))
        \<le> int (turns (summarize exact_ops ''good.mp3''
                          (process_transcript conversation ''good.mp3''))) - 1"
proof -
  note inst = speaker_change_has_gap_and_count_bound
                [of conversation "''a.mp3''" exact_ops "[good_file]"]
  have ne: "conversation \<noteq> []" by (simp add: conversation_def)
  have m: "main exact_ops [good_file] =
             [summarize exact_ops ''good.mp3'' (process_transcript conversation ''good.mp3'')]"
    by (simp add: main_def good_file_def transcribe_audio_def conversation_turns)
  have u: "process_uploaded_files exact_ops [good_file] =
             Inr [summarize exact_ops ''good.mp3'' (process_transcript conversation ''good.mp3'')]"
    by (simp add: process_uploaded_files_def good_file_def transcribe_audio_def
                  conversation_turns SUPPORTED_EXTENSIONS_def)
  from inst ne show ?thesis
    unfolding m u by (simp add: conversation_turns summarize_def)
qed

end
